theory Spec2Isabelle
  imports Complex_Main
begin

section \<open>Tensors of the QSP layer\<close>

text \<open>
  The layer of \<^verbatim>\<open>qsp_layers.py\<close> works on tensors of shape \<open>(N, 2, 2)\<close> with complex
  entries: a batch of \<open>N\<close> matrices, one per input angle. A single 2x2 matrix is a value
  of \<open>mat2\<close>, a batch is a list of them. The entries are exact complex numbers: the
  rounding of \<^verbatim>\<open>complex64\<close> is not part of this development.
\<close>

datatype mat2 = Mat2 (m00: complex) (m01: complex) (m10: complex) (m11: complex)

definition matmul :: "mat2 \<Rightarrow> mat2 \<Rightarrow> mat2" where
  "matmul A B = Mat2 (m00 A * m00 B + m01 A * m10 B) (m00 A * m01 B + m01 A * m11 B)
                     (m10 A * m00 B + m11 A * m10 B) (m10 A * m01 B + m11 A * m11 B)"

definition multiply :: "mat2 \<Rightarrow> mat2 \<Rightarrow> mat2" where
  \<comment> \<open>\<^verbatim>\<open>tf.multiply\<close> on one matrix: the product entry by entry.\<close>
  "multiply A B = Mat2 (m00 A * m00 B) (m01 A * m01 B) (m10 A * m10 B) (m11 A * m11 B)"

definition eye2 :: mat2 where
  "eye2 = Mat2 1 0 0 1"

definition dagger :: "mat2 \<Rightarrow> mat2" where
  "dagger A = Mat2 (cnj (m00 A)) (cnj (m10 A)) (cnj (m01 A)) (cnj (m11 A))"

definition unitary :: "mat2 \<Rightarrow> bool" where
  \<comment> \<open>\<open>U\<close> times its conjugate transpose is the identity\<close>
  "unitary U = (matmul U (dagger U) = eye2)"

definition smult :: "complex \<Rightarrow> mat2 \<Rightarrow> mat2" where
  "smult c A = Mat2 (c * m00 A) (c * m01 A) (c * m10 A) (c * m11 A)"

primrec mat_pow :: "mat2 \<Rightarrow> nat \<Rightarrow> mat2" where
  "mat_pow A 0 = eye2"
| "mat_pow A (Suc n) = matmul A (mat_pow A n)"

definition expm :: "mat2 \<Rightarrow> mat2" where
  \<comment> \<open>\<^verbatim>\<open>tf.linalg.expm\<close> on one matrix: the matrix exponential, as the sum of the
      power series \<open>A^n / n!\<close>, entry by entry.\<close>
  "expm A = Mat2 (\<Sum>n. m00 (mat_pow A n) / fact n) (\<Sum>n. m01 (mat_pow A n) / fact n)
                 (\<Sum>n. m10 (mat_pow A n) / fact n) (\<Sum>n. m11 (mat_pow A n) / fact n)"

definition tile22 :: "complex \<Rightarrow> mat2" where
  \<comment> \<open>a scalar tiled to shape \<open>(2, 2)\<close>\<close>
  "tile22 c = Mat2 c c c c"

definition tf_multiply :: "mat2 list \<Rightarrow> mat2 list \<Rightarrow> mat2 list" where
  "tf_multiply as bs = map2 multiply as bs"

definition tf_matmul :: "mat2 list \<Rightarrow> mat2 list \<Rightarrow> mat2 list" where
  "tf_matmul as bs = map2 matmul as bs"

definition tf_expm :: "mat2 list \<Rightarrow> mat2 list" where
  "tf_expm as = map expm as"

section \<open>The QSP layer\<close>

text \<open>
  Errors of the Python program are values. \<open>InvalidArgument\<close> is what TensorFlow raises
  for a tensor shape with a negative dimension and for a slice index out of the bounds of
  a tensor, \<open>IndexError\<close> is an index out of the range of a Python list,
  \<open>ValueError\<close> is what \<^verbatim>\<open>tf.cast\<close> raises for the value \<^verbatim>\<open>None\<close>,
  \<open>IncompatibleShapes\<close> is what an elementwise operation raises for two shapes that do not
  broadcast, and \<open>UnboundLocalError\<close> is the read of a local variable that no branch assigned.
\<close>

datatype error = InvalidArgument | IndexError | ValueError | IncompatibleShapes | UnboundLocalError

text \<open>
  The attributes of a \<^verbatim>\<open>QSP\<close> object. \<^verbatim>\<open>poly_deg\<close> and \<^verbatim>\<open>convention\<close> are Python
  integers, \<^verbatim>\<open>phis\<close> is the trainable variable of shape \<open>(poly_deg + 1, 1)\<close>, one
  real number per row.
\<close>

record QSP =
  poly_deg :: int
  convention :: int
  phis :: "real list"

definition QSP_init :: "int \<Rightarrow> int \<Rightarrow> (nat \<Rightarrow> real) \<Rightarrow> error + QSP" where
  \<comment> \<open>\<^verbatim>\<open>QSP.__init__\<close>. The random initializer is the parameter \<open>phi_init\<close>: the
      value it draws for each row. The initializer refuses a shape with a negative
      dimension and returns an empty tensor for the dimension 0; the constructor itself
      checks nothing.\<close>
  "QSP_init poly_deg_arg convention_arg phi_init =
     (if poly_deg_arg + 1 < 0 then Inl InvalidArgument
      else Inr \<lparr>poly_deg = poly_deg_arg, convention = convention_arg,
                phis = map phi_init [0..<nat (poly_deg_arg + 1)]\<rparr>)"

definition x_rotations :: "real list \<Rightarrow> mat2 list" where
  \<comment> \<open>lines 44 to 55: the tensor \<^verbatim>\<open>wx\<close>\<close>
  "x_rotations th =
     (let batch_dim = length th;
          px = replicate batch_dim (Mat2 0 1 1 0);
          rot_x_arg = map (\<lambda>t. tile22 (Complex 0 t)) th
      in tf_expm (tf_multiply px rot_x_arg))"

definition z_rotation :: "nat \<Rightarrow> real \<Rightarrow> mat2 list" where
  \<comment> \<open>lines 58 to 60 and 65 to 70: the tensor \<^verbatim>\<open>rz\<close> of one phase\<close>
  "z_rotation batch_dim phi =
     (let pz = replicate batch_dim (Mat2 1 0 0 (- 1));
          rot_z_arg = replicate batch_dim (tile22 (Complex 0 phi))
      in tf_expm (tf_multiply pz rot_z_arg))"

fun z_rotations_loop :: "real list \<Rightarrow> nat \<Rightarrow> nat list \<Rightarrow> mat2 list list \<Rightarrow> error + mat2 list list" where
  \<comment> \<open>lines 62 to 71: the loop over \<^verbatim>\<open>range(self.poly_deg + 1)\<close>, appending to
      \<^verbatim>\<open>z_rotations\<close>; the slice \<^verbatim>\<open>self.phis[k]\<close> of the variable raises out of
      its bounds\<close>
  "z_rotations_loop ps batch_dim [] z_rotations = Inr z_rotations"
| "z_rotations_loop ps batch_dim (k # ks) z_rotations =
     (if k < length ps
      then z_rotations_loop ps batch_dim ks (z_rotations @ [z_rotation batch_dim (ps ! k)])
      else Inl InvalidArgument)"

definition circuit_unitary :: "QSP \<Rightarrow> real list \<Rightarrow> error + mat2 list" where
  \<comment> \<open>lines 44 to 76 of \<^verbatim>\<open>QSP.call\<close>: the tensor \<^verbatim>\<open>u\<close> before the readout\<close>
  "circuit_unitary self th =
     (let batch_dim = length th;
          wx = x_rotations th
      in case z_rotations_loop (phis self) batch_dim [0..<nat (poly_deg self + 1)] [] of
           Inl e \<Rightarrow> Inl e
         | Inr z_rotations \<Rightarrow>
             (case z_rotations of
                [] \<Rightarrow> Inl IndexError
              | u0 # rest \<Rightarrow> Inr (foldl (\<lambda>u rz. tf_matmul (tf_matmul u wx) rz) u0 rest)))"

definition call :: "QSP \<Rightarrow> real list \<Rightarrow> error + (real list \<times> real list) option" where
  \<comment> \<open>\<^verbatim>\<open>QSP.call\<close>. The result \<open>Inr None\<close> is Python's \<^verbatim>\<open>None\<close>: the function ends
      without a \<^verbatim>\<open>return\<close> when neither branch of lines 78 to 83 is taken.\<close>
  "call self th =
     (case circuit_unitary self th of
        Inl e \<Rightarrow> Inl e
      | Inr u \<Rightarrow>
          if convention self = 0
          then Inr (Some (map (\<lambda>m. Re (m00 m)) u, map (\<lambda>m. Im (m00 m)) u))
          else if convention self = 1
          then Inr (Some (map (\<lambda>m. Re (m00 m)) u, map (\<lambda>m. Im (m01 m)) u))
          else Inr None)"

section \<open>The loss functions\<close>

text \<open>
  A reduction over an empty tensor has no real value: TensorFlow's \<^verbatim>\<open>reduce_mean\<close>
  divides zero by zero and \<^verbatim>\<open>reduce_max\<close> returns the least float. The result type
  of a reduction has these two values beside the real numbers.
\<close>

datatype scalar = Finite real | NaN | NegInf

definition tf_subtract :: "complex list \<Rightarrow> complex list \<Rightarrow> error + complex list" where
  \<comment> \<open>\<^verbatim>\<open>tf.subtract\<close> on tensors of rank 1: a tensor of length 1 is broadcast\<close>
  "tf_subtract xs ys =
     (if length xs = length ys then Inr (map2 (-) xs ys)
      else if length xs = 1 then Inr (map (\<lambda>y. hd xs - y) ys)
      else if length ys = 1 then Inr (map (\<lambda>x. x - hd ys) xs)
      else Inl IncompatibleShapes)"

definition tf_abs :: "complex list \<Rightarrow> real list" where
  "tf_abs zs = map cmod zs"

definition tf_square :: "real list \<Rightarrow> real list" where
  "tf_square xs = map (\<lambda>x. x * x) xs"

definition reduce_mean :: "real list \<Rightarrow> scalar" where
  "reduce_mean xs = (if xs = [] then NaN else Finite (sum_list xs / real (length xs)))"

definition reduce_max :: "real list \<Rightarrow> scalar" where
  "reduce_max xs = (case xs of [] \<Rightarrow> NegInf | x # rest \<Rightarrow> Finite (fold max rest x))"

definition mean_deviation :: "complex list \<Rightarrow> complex list \<Rightarrow> error + scalar" where
  "mean_deviation y_true y_pred =
     (case tf_subtract y_true y_pred of
        Inl e \<Rightarrow> Inl e
      | Inr d \<Rightarrow> (let deviations = tf_abs d in Inr (reduce_mean deviations)))"

definition max_deviation :: "complex list \<Rightarrow> complex list \<Rightarrow> error + scalar" where
  "max_deviation y_true y_pred =
     (case tf_subtract y_true y_pred of
        Inl e \<Rightarrow> Inl e
      | Inr d \<Rightarrow> (let deviations = tf_abs d in Inr (reduce_max deviations)))"

definition mean_deviation_squared :: "complex list \<Rightarrow> complex list \<Rightarrow> error + scalar" where
  "mean_deviation_squared y_true y_pred =
     (case tf_subtract y_true y_pred of
        Inl e \<Rightarrow> Inl e
      | Inr d \<Rightarrow> (let deviations = tf_abs d in Inr (reduce_mean (tf_square deviations))))"

definition max_deviation_squared :: "complex list \<Rightarrow> complex list \<Rightarrow> error + scalar" where
  "max_deviation_squared y_true y_pred =
     (case tf_subtract y_true y_pred of
        Inl e \<Rightarrow> Inl e
      | Inr d \<Rightarrow> (let deviations = tf_abs d in Inr (reduce_max (tf_square deviations))))"

section \<open>The model builder\<close>

datatype loss_fn = MeanDeviation | MeanDeviationSquared | MaxDeviation | MaxDeviationSquared

fun loss_apply :: "loss_fn \<Rightarrow> complex list \<Rightarrow> complex list \<Rightarrow> error + scalar" where
  "loss_apply MeanDeviation = mean_deviation"
| "loss_apply MeanDeviationSquared = mean_deviation_squared"
| "loss_apply MaxDeviation = max_deviation"
| "loss_apply MaxDeviationSquared = max_deviation_squared"

text \<open>
  A compiled Keras model, as far as \<^verbatim>\<open>construct_qsp_model\<close> determines it: the layer
  its graph calls, the learning rate of its optimizer, the loss it was compiled with and
  the attribute \<^verbatim>\<open>convention\<close> set on line 144.
\<close>

record model =
  qsp :: QSP
  learning_rate :: real
  loss :: loss_fn
  model_convention :: int

definition real_and_imag_parts_added :: "QSP \<Rightarrow> real list \<Rightarrow> error + complex list" where
  \<comment> \<open>lines 125 and 126: the two streams of the layer cast to complex and added;
      \<^verbatim>\<open>tf.cast\<close> raises for \<^verbatim>\<open>None\<close>\<close>
  "real_and_imag_parts_added layer th =
     (case call layer th of
        Inl e \<Rightarrow> Inl e
      | Inr None \<Rightarrow> Inl ValueError
      | Inr (Some (re, im)) \<Rightarrow>
          Inr (map2 (\<lambda>r i. complex_of_real r + \<i> * complex_of_real i) re im))"

definition select_loss :: "int \<Rightarrow> int \<Rightarrow> loss_fn option" where
  \<comment> \<open>lines 132 to 141; \<open>None\<close> when no branch assigns \<^verbatim>\<open>loss\<close>\<close>
  "select_loss mean_or_max squared =
     (if mean_or_max = 0 then
        (if squared = 0 then Some MeanDeviation
         else if squared = 1 then Some MeanDeviationSquared
         else None)
      else if mean_or_max = 1 then
        (if squared = 0 then Some MaxDeviation
         else if squared = 1 then Some MaxDeviationSquared
         else None)
      else None)"

definition construct_qsp_model ::
    "int \<Rightarrow> int \<Rightarrow> real \<Rightarrow> int \<Rightarrow> int \<Rightarrow> (nat \<Rightarrow> real) \<Rightarrow> error + model" where
  \<comment> \<open>Keras runs the body of \<^verbatim>\<open>call\<close> once, on the placeholder \<^verbatim>\<open>theta_input\<close>,
      when line 125 applies the layer: an exception of the body is raised there, and
      the error value names that exception, whatever wrapper Keras reports it in. The
      placeholder is the empty batch here; \<open>graph_error_any_batch\<close> shows that the choice
      does not matter.\<close>
  "construct_qsp_model poly_deg_arg convention_arg lr mean_or_max squared phi_init =
     (case QSP_init poly_deg_arg convention_arg phi_init of
        Inl e \<Rightarrow> Inl e
      | Inr layer \<Rightarrow>
          (case real_and_imag_parts_added layer [] of
             Inl e \<Rightarrow> Inl e
           | Inr _ \<Rightarrow>
               (case select_loss mean_or_max squared of
                  None \<Rightarrow> Inl UnboundLocalError
                | Some l \<Rightarrow>
                    Inr \<lparr>qsp = layer, learning_rate = lr, loss = l,
                         model_convention = convention_arg\<rparr>)))"

definition predict :: "model \<Rightarrow> real list \<Rightarrow> error + complex list" where
  \<comment> \<open>the forward pass of the model: its graph on a batch\<close>
  "predict m th = real_and_imag_parts_added (qsp m) th"

section \<open>The circuit as the specification writes it\<close>

definition R_z :: "real \<Rightarrow> mat2" where
  "R_z phi = expm (smult (\<i> * complex_of_real phi) (Mat2 1 0 0 (- 1)))"

definition W :: "real \<Rightarrow> mat2" where
  "W theta = expm (smult (\<i> * complex_of_real theta) (Mat2 0 1 1 0))"

datatype rotation = RotZ real | RotX real

fun rotation_matrix :: "rotation \<Rightarrow> mat2" where
  "rotation_matrix (RotZ phi) = R_z phi"
| "rotation_matrix (RotX theta) = W theta"

definition qsp_sequence :: "real list \<Rightarrow> real \<Rightarrow> rotation list" where
  \<comment> \<open>the factors in their order: \<open>R_z(phi_0)\<close>, then \<open>W(theta)\<close> and \<open>R_z(phi_k)\<close> for
      each further phase\<close>
  "qsp_sequence ps theta = RotZ (hd ps) # concat (map (\<lambda>phi. [RotX theta, RotZ phi]) (tl ps))"

definition ordered_product :: "mat2 list \<Rightarrow> mat2" where
  \<comment> \<open>a non-empty list of matrices multiplied from left to right\<close>
  "ordered_product ms = foldl matmul (hd ms) (tl ms)"

definition qsp_product :: "real list \<Rightarrow> real \<Rightarrow> mat2" where
  \<comment> \<open>\<open>R_z(phi_0) * (W(theta) * R_z(phi_1)) * ... * (W(theta) * R_z(phi_d))\<close>\<close>
  "qsp_product ps theta =
     ordered_product (R_z (hd ps) # map (\<lambda>phi. matmul (W theta) (R_z phi)) (tl ps))"

definition is_X_rotation :: "rotation \<Rightarrow> bool" where
  "is_X_rotation r = (case r of RotX _ \<Rightarrow> True | RotZ _ \<Rightarrow> False)"

definition is_Z_rotation :: "rotation \<Rightarrow> bool" where
  "is_Z_rotation r = (case r of RotZ _ \<Rightarrow> True | RotX _ \<Rightarrow> False)"

section \<open>The matrix exponential of the two generators\<close>

lemma mat_pow_diag: "mat_pow (Mat2 a 0 0 d) n = Mat2 (a ^ n) 0 0 (d ^ n)"
  by (induction n) (simp_all add: eye2_def matmul_def)

lemma mat_pow_offdiag:
  "mat_pow (Mat2 0 b b 0) n =
     Mat2 ((b ^ n + (- b) ^ n) / 2) ((b ^ n - (- b) ^ n) / 2)
          ((b ^ n - (- b) ^ n) / 2) ((b ^ n + (- b) ^ n) / 2)"
  by (induction n) (simp_all add: eye2_def matmul_def field_simps)

lemma exp_series_complex: "(\<lambda>n. (z::complex) ^ n / fact n) sums exp z"
  using exp_converges [of z] by (simp add: scaleR_conv_of_real field_simps)

lemma suminf_exp_complex: "(\<Sum>n. (z::complex) ^ n / fact n) = exp z"
  using exp_series_complex [of z] by (rule sums_unique [symmetric])

lemma expm_diag: "expm (Mat2 a 0 0 d) = Mat2 (exp a) 0 0 (exp d)"
  by (simp add: expm_def mat_pow_diag suminf_exp_complex)

lemma cosh_series: "(\<lambda>n. ((b::complex) ^ n + (- b) ^ n) / 2 / fact n) sums ((exp b + exp (- b)) / 2)"
proof -
  have "(\<lambda>n. (b ^ n / fact n + (- b) ^ n / fact n) / 2) sums ((exp b + exp (- b)) / 2)"
    by (intro sums_divide sums_add exp_series_complex)
  then show ?thesis by (simp add: field_simps)
qed

lemma sinh_series: "(\<lambda>n. ((b::complex) ^ n - (- b) ^ n) / 2 / fact n) sums ((exp b - exp (- b)) / 2)"
proof -
  have "(\<lambda>n. (b ^ n / fact n - (- b) ^ n / fact n) / 2) sums ((exp b - exp (- b)) / 2)"
    by (intro sums_divide sums_diff exp_series_complex)
  then show ?thesis by (simp add: field_simps)
qed

lemma expm_offdiag:
  "expm (Mat2 0 b b 0) =
     Mat2 ((exp b + exp (- b)) / 2) ((exp b - exp (- b)) / 2)
          ((exp b - exp (- b)) / 2) ((exp b + exp (- b)) / 2)"
  using cosh_series [of b, THEN sums_unique] sinh_series [of b, THEN sums_unique]
  by (simp add: expm_def mat_pow_offdiag)

lemma exp_imag: "exp (Complex 0 t) = Complex (cos t) (sin t)"
  by (simp add: exp_eq_polar complex_eq_iff cis.ctr)

lemma exp_neg_imag: "exp (- Complex 0 t) = Complex (cos t) (- sin t)"
proof -
  have "- Complex 0 t = Complex 0 (- t)" by (simp add: complex_eq_iff)
  then show ?thesis using exp_imag [of "- t"] by simp
qed

lemma expm_z_generator:
  "expm (multiply (Mat2 1 0 0 (- 1)) (tile22 (Complex 0 p))) =
     Mat2 (Complex (cos p) (sin p)) 0 0 (Complex (cos p) (- sin p))"
  by (simp add: multiply_def tile22_def expm_diag exp_imag exp_neg_imag)

lemma expm_x_generator:
  "expm (multiply (Mat2 0 1 1 0) (tile22 (Complex 0 t))) =
     Mat2 (Complex (cos t) 0) (Complex 0 (sin t)) (Complex 0 (sin t)) (Complex (cos t) 0)"
  by (simp add: multiply_def tile22_def expm_offdiag exp_imag exp_neg_imag complex_eq_iff)

section \<open>Algebra of 2x2 matrices\<close>


lemma matmul_assoc: "matmul (matmul A B) C = matmul A (matmul B C)"
  by (simp add: matmul_def algebra_simps)

lemma dagger_matmul: "dagger (matmul A B) = matmul (dagger B) (dagger A)"
  by (simp add: matmul_def dagger_def algebra_simps)

lemma matmul_eye2_right: "matmul A eye2 = A"
  by (cases A) (simp add: matmul_def eye2_def)

lemma matmul_eye2_left: "matmul eye2 A = A"
  by (cases A) (simp add: matmul_def eye2_def)

lemma unitary_matmul: "unitary A \<Longrightarrow> unitary B \<Longrightarrow> unitary (matmul A B)"
proof -
  assume a: "unitary A" and b: "unitary B"
  have "matmul (matmul A B) (dagger (matmul A B)) = matmul A (matmul (matmul B (dagger B)) (dagger A))"
    by (simp add: dagger_matmul matmul_assoc)
  also have "\<dots> = eye2" using a b by (simp add: unitary_def matmul_eye2_left)
  finally show ?thesis by (simp add: unitary_def)
qed

lemma z_generator_smult:
  "multiply (Mat2 1 0 0 (- 1)) (tile22 (Complex 0 p)) = smult (\<i> * complex_of_real p) (Mat2 1 0 0 (- 1))"
  by (simp add: multiply_def tile22_def smult_def complex_eq_iff)

lemma x_generator_smult:
  "multiply (Mat2 0 1 1 0) (tile22 (Complex 0 t)) = smult (\<i> * complex_of_real t) (Mat2 0 1 1 0)"
  by (simp add: multiply_def tile22_def smult_def complex_eq_iff)

lemma R_z_closed: "R_z p = Mat2 (Complex (cos p) (sin p)) 0 0 (Complex (cos p) (- sin p))"
  using expm_z_generator [of p] by (simp add: R_z_def z_generator_smult)

lemma W_closed: "W t = Mat2 (Complex (cos t) 0) (Complex 0 (sin t)) (Complex 0 (sin t)) (Complex (cos t) 0)"
  using expm_x_generator [of t] by (simp add: W_def x_generator_smult)

lemma sin_cos_squared_sum: "sin (x::real) * sin x + cos x * cos x = 1"
  using sin_cos_squared_add [of x] by (simp add: power2_eq_square)

lemma unitary_R_z: "unitary (R_z p)"
  by (simp add: unitary_def R_z_closed matmul_def dagger_def eye2_def complex_eq_iff
      sin_cos_squared_sum add.commute)

lemma unitary_W: "unitary (W t)"
  by (simp add: unitary_def W_closed matmul_def dagger_def eye2_def complex_eq_iff
      sin_cos_squared_sum add.commute)

lemma x_rotations_eq: "x_rotations th = map W th"
  by (simp add: x_rotations_def tf_expm_def tf_multiply_def W_def x_generator_smult
      map2_map_map zip_replicate1 map_zip_map2 o_def)

lemma z_rotation_eq: "z_rotation n p = replicate n (R_z p)"
  by (simp add: z_rotation_def tf_expm_def tf_multiply_def R_z_def z_generator_smult
      zip_replicate map_replicate)


lemma z_rotations_loop_eq:
  "z_rotations_loop ps n ks acc =
     (if \<forall>k\<in>set ks. k < length ps
      then Inr (acc @ map (\<lambda>k. replicate n (R_z (ps ! k))) ks)
      else Inl InvalidArgument)"
  by (induction ks arbitrary: acc) (simp_all add: z_rotation_eq)

lemma batch_step:
  "tf_matmul (tf_matmul (map g th) (map W th)) (replicate (length th) A) =
     map (\<lambda>t. matmul (matmul (g t) (W t)) A) th"
  by (induction th) (simp_all add: tf_matmul_def)

lemma batch_foldl:
  "foldl (\<lambda>u rz. tf_matmul (tf_matmul u (map W th)) rz) (map g th)
         (map (\<lambda>p. replicate (length th) (R_z p)) ps) =
     map (\<lambda>t. foldl (\<lambda>u p. matmul (matmul u (W t)) (R_z p)) (g t) ps) th"
proof (induction ps arbitrary: g)
  case Nil
  then show ?case by simp
next
  case (Cons p ps)
  show ?case
    using Cons.IH [of "\<lambda>t. matmul (matmul (g t) (W t)) (R_z p)"]
    by (simp add: batch_step)
qed

lemma foldl_grouped:
  "foldl (\<lambda>u p. matmul (matmul u (W t)) (R_z p)) A ps =
     foldl matmul A (map (\<lambda>p. matmul (W t) (R_z p)) ps)"
  by (induction ps arbitrary: A) (simp_all add: matmul_assoc)

lemma foldl_flat:
  "foldl matmul A (map rotation_matrix (concat (map (\<lambda>p. [RotX t, RotZ p]) ps))) =
     foldl (\<lambda>u p. matmul (matmul u (W t)) (R_z p)) A ps"
  by (induction ps arbitrary: A) simp_all

lemma take_as_nths: "n \<le> length xs \<Longrightarrow> take n xs = map (\<lambda>k. xs ! k) [0..<n]"
  by (rule nth_equalityI) simp_all

lemma circuit_unitary_eq:
  "circuit_unitary self th =
     (if 0 \<le> poly_deg self \<and> nat (poly_deg self + 1) \<le> length (phis self)
      then Inr (map (qsp_product (take (nat (poly_deg self + 1)) (phis self))) th)
      else if 0 \<le> poly_deg self then Inl InvalidArgument
      else Inl IndexError)"
proof (cases "0 \<le> poly_deg self \<and> nat (poly_deg self + 1) \<le> length (phis self)")
  case True
  define d where "d = nat (poly_deg self)"
  have n: "nat (poly_deg self + 1) = Suc d" using True by (simp add: d_def nat_add_distrib)
  have len: "Suc d \<le> length (phis self)" using True n by simp
  have ks: "[0..<Suc d] = 0 # map Suc [0..<d]"
    by (simp add: upt_conv_Cons map_Suc_upt del: upt_Suc)
  have tk: "take (Suc d) (phis self) = phis self ! 0 # map (\<lambda>k. phis self ! Suc k) [0..<d]"
    using take_as_nths [OF len] by (simp add: ks o_def del: upt_Suc)
  have rep: "replicate (length th) (R_z (phis self ! 0)) = map (\<lambda>t. R_z (phis self ! 0)) th"
    by (simp add: map_replicate_const)
  have all: "\<forall>k\<in>set [0..<Suc d]. k < length (phis self)" using len by auto
  have fold: "foldl (\<lambda>u rz. tf_matmul (tf_matmul u (map W th)) rz) (map (\<lambda>t. R_z (phis self ! 0)) th)
         (map (\<lambda>p. replicate (length th) (R_z p)) (map (\<lambda>k. phis self ! Suc k) [0..<d])) =
       map (qsp_product (take (Suc d) (phis self))) th"
    unfolding batch_foldl tk by (simp add: qsp_product_def ordered_product_def foldl_grouped)
  have loop: "z_rotations_loop (phis self) (length th) [0..<Suc d] [] =
      Inr (replicate (length th) (R_z (phis self ! 0)) #
           map (\<lambda>p. replicate (length th) (R_z p)) (map (\<lambda>k. phis self ! Suc k) [0..<d]))"
    unfolding z_rotations_loop_eq using all by (simp add: ks o_def del: upt_Suc)
  show ?thesis
    using True fold by (simp add: circuit_unitary_def n loop x_rotations_eq rep del: upt_Suc)
next
  case False
  show ?thesis
  proof (cases "0 \<le> poly_deg self")
    case True
    then have "\<not> nat (poly_deg self + 1) \<le> length (phis self)" using False by simp
    then have "length (phis self) \<in> set [0..<nat (poly_deg self + 1)]" by simp
    then have nall: "\<not> (\<forall>k\<in>set [0..<nat (poly_deg self + 1)]. k < length (phis self))"
      by blast
    have loop: "z_rotations_loop (phis self) (length th) [0..<nat (poly_deg self + 1)] [] =
        Inl InvalidArgument"
      by (subst z_rotations_loop_eq) (simp only: nall if_False)
    show ?thesis using False True by (simp add: circuit_unitary_def loop)
  next
    case neg: False
    then have "nat (poly_deg self + 1) = 0" by simp
    then show ?thesis using False neg by (simp add: circuit_unitary_def)
  qed
qed


lemma unitary_foldl:
  "unitary A \<Longrightarrow> (\<And>B. B \<in> set Bs \<Longrightarrow> unitary B) \<Longrightarrow> unitary (foldl matmul A Bs)"
  by (induction Bs arbitrary: A) (simp_all add: unitary_matmul)

lemma unitary_qsp_product: "unitary (qsp_product ps t)"
  unfolding qsp_product_def ordered_product_def
  by (rule unitary_foldl) (auto simp: unitary_R_z unitary_W unitary_matmul)

lemma qsp_product_flat:
  "qsp_product ps t = ordered_product (map rotation_matrix (qsp_sequence ps t))"
  by (simp add: qsp_product_def ordered_product_def qsp_sequence_def foldl_flat foldl_grouped)

lemma count_Z_aux:
  "length (filter is_Z_rotation (concat (map (\<lambda>p. [RotX t, RotZ p]) qs))) = length qs"
  by (induction qs) (simp_all add: is_Z_rotation_def)

lemma count_X_aux:
  "length (filter is_X_rotation (concat (map (\<lambda>p. [RotX t, RotZ p]) qs))) = length qs"
  by (induction qs) (simp_all add: is_X_rotation_def)

lemma pairs_nth_even:
  "k < length qs \<Longrightarrow> concat (map (\<lambda>p. [RotX t, RotZ p]) qs) ! (2 * k) = RotX t"
proof (induction qs arbitrary: k)
  case Nil
  then show ?case by simp
next
  case (Cons q qs)
  then show ?case by (cases k) simp_all
qed

lemma pairs_nth_odd:
  "k < length qs \<Longrightarrow> concat (map (\<lambda>p. [RotX t, RotZ p]) qs) ! Suc (2 * k) = RotZ (qs ! k)"
proof (induction qs arbitrary: k)
  case Nil
  then show ?case by simp
next
  case (Cons q qs)
  then show ?case by (cases k) simp_all
qed


lemma circuit_unitary_wf:
  assumes "0 \<le> poly_deg self" and "length (phis self) = nat (poly_deg self + 1)"
  shows "circuit_unitary self th = Inr (map (qsp_product (phis self)) th)"
  using assms by (simp add: circuit_unitary_eq)

text \<open>
  Claim C5. A layer of degree 0 with convention 0 and the single phase \<open>phi0\<close> returns,
  for every input batch, the real stream \<open>cos phi0\<close> and the imaginary stream
  \<open>sin phi0\<close> at every example, whatever the angles of the batch are.
\<close>

theorem poly_deg_zero_readout:
  "call \<lparr>poly_deg = 0, convention = 0, phis = [phi0]\<rparr> th =
     Inr (Some (map (\<lambda>theta. cos phi0) th, map (\<lambda>theta. sin phi0) th))"
  by (simp add: call_def circuit_unitary_eq qsp_product_def ordered_product_def R_z_closed o_def)

text \<open>
  Claim C4. The claim asks for an error on a convention other than 0 and 1. The code
  has no branch for it: on the layer of degree 0 with convention 2 and the batch of the
  single angle 0, \<^verbatim>\<open>call\<close> raises nothing and returns \<^verbatim>\<open>None\<close>.
\<close>

theorem unsupported_convention_returns_None:
  "call \<lparr>poly_deg = 0, convention = 2, phis = [0]\<rparr> [0] = Inr None"
  by (simp add: call_def circuit_unitary_eq)

section \<open>The forward call\<close>

text \<open>
  Claim C1. On a layer of degree \<open>d \<ge> 0\<close> with its \<open>d + 1\<close> phases, the forward call
  computes for each example the product
  \<open>R_z(phi_0) * (W(theta) * R_z(phi_1)) * ... * (W(theta) * R_z(phi_d))\<close>, in the order of the
  batch. The product is the one of the \<open>2 d + 1\<close> rotations of \<open>qsp_sequence\<close> multiplied
  from left to right: the Z-rotation of \<open>phi_k\<close> stands at position \<open>2 k\<close>, an X-rotation
  of the example's angle at every odd position, so there are \<open>d + 1\<close> Z-rotations and \<open>d\<close>
  X-rotations. For \<open>d = 0\<close> the product is \<open>R_z(phi_0)\<close> alone.
\<close>

theorem qsp_call_ordered_product:
  assumes "0 \<le> poly_deg self" and "length (phis self) = nat (poly_deg self + 1)"
  shows "circuit_unitary self th = Inr (map (qsp_product (phis self)) th) \<and>
     (\<forall>theta.
        qsp_product (phis self) theta =
          ordered_product (map rotation_matrix (qsp_sequence (phis self) theta)) \<and>
        length (qsp_sequence (phis self) theta) = 2 * nat (poly_deg self) + 1 \<and>
        length (filter is_Z_rotation (qsp_sequence (phis self) theta)) = nat (poly_deg self) + 1 \<and>
        length (filter is_X_rotation (qsp_sequence (phis self) theta)) = nat (poly_deg self) \<and>
        (\<forall>k\<le>nat (poly_deg self). qsp_sequence (phis self) theta ! (2 * k) = RotZ (phis self ! k)) \<and>
        (\<forall>k<nat (poly_deg self). qsp_sequence (phis self) theta ! (2 * k + 1) = RotX theta) \<and>
        (poly_deg self = 0 \<longrightarrow> qsp_product (phis self) theta = R_z (phis self ! 0)))"
proof -
  define d where "d = nat (poly_deg self)"
  have len: "length (phis self) = Suc d"
    using assms by (simp add: d_def nat_add_distrib)
  then obtain p0 qs where ps: "phis self = p0 # qs" and lqs: "length qs = d"
    by (cases "phis self") auto
  have cu: "circuit_unitary self th = Inr (map (qsp_product (phis self)) th)"
    using assms by (rule circuit_unitary_wf)
  have seq_len: "length (qsp_sequence (phis self) theta) = 2 * d + 1" for theta
    using lqs by (simp add: qsp_sequence_def ps length_concat o_def sum_list_triv)
  have cz: "length (filter is_Z_rotation (qsp_sequence (phis self) theta)) = d + 1" for theta
    using lqs by (simp add: qsp_sequence_def ps count_Z_aux is_Z_rotation_def)
  have cx: "length (filter is_X_rotation (qsp_sequence (phis self) theta)) = d" for theta
    using lqs by (simp add: qsp_sequence_def ps count_X_aux is_X_rotation_def)
  have zs: "qsp_sequence (phis self) theta ! (2 * k) = RotZ (phis self ! k)" if "k \<le> d" for theta k
  proof (cases k)
    case 0
    then show ?thesis by (simp add: qsp_sequence_def ps)
  next
    case (Suc j)
    then have "j < length qs" using that lqs by simp
    then show ?thesis using Suc pairs_nth_odd [of j qs theta]
      by (simp add: qsp_sequence_def ps)
  qed
  have xs: "qsp_sequence (phis self) theta ! (2 * k + 1) = RotX theta" if "k < d" for theta k
    using that lqs pairs_nth_even [of k qs theta] by (simp add: qsp_sequence_def ps)
  have zero: "qsp_product (phis self) theta = R_z (phis self ! 0)" if "poly_deg self = 0" for theta
    using that lqs by (simp add: d_def qsp_product_def ordered_product_def ps)
  show ?thesis
    using cu seq_len cz cx zs xs zero qsp_product_flat unfolding d_def by blast
qed

theorem qsp_call_ordered_product_witness:
  "circuit_unitary \<lparr>poly_deg = 1, convention = 0, phis = [0, 0]\<rparr> [0] = Inr [qsp_product [0, 0] 0] \<and>
   qsp_sequence [0, 0] 0 = [RotZ 0, RotX 0, RotZ 0] \<and>
   length (filter is_X_rotation (qsp_sequence [0, 0] 0)) = 1"
  using qsp_call_ordered_product [of "\<lparr>poly_deg = 1, convention = 0, phis = [0, 0]\<rparr>" "[0]"]
  by (simp add: qsp_sequence_def)


text \<open>
  Claim C2. On a layer of degree \<open>d \<ge> 0\<close> with its \<open>d + 1\<close> phases, the forward call
  returns two streams as long as the batch. At index \<open>i\<close> the first stream is the real
  part of the top-left entry of the unitary of example \<open>i\<close>; the second stream is the
  imaginary part of the top-left entry under convention 0 and of the top-right entry
  under convention 1.
\<close>

theorem qsp_call_readout:
  assumes "0 \<le> poly_deg self" and "length (phis self) = nat (poly_deg self + 1)"
  shows "\<exists>us. circuit_unitary self th = Inr us \<and> length us = length th \<and>
     (\<forall>i<length th. us ! i = qsp_product (phis self) (th ! i)) \<and>
     (convention self = 0 \<longrightarrow>
        (\<exists>re im. call self th = Inr (Some (re, im)) \<and>
           length re = length th \<and> length im = length th \<and>
           (\<forall>i<length th. re ! i = Re (m00 (us ! i)) \<and> im ! i = Im (m00 (us ! i))))) \<and>
     (convention self = 1 \<longrightarrow>
        (\<exists>re im. call self th = Inr (Some (re, im)) \<and>
           length re = length th \<and> length im = length th \<and>
           (\<forall>i<length th. re ! i = Re (m00 (us ! i)) \<and> im ! i = Im (m01 (us ! i)))))"
proof -
  have cu: "circuit_unitary self th = Inr (map (qsp_product (phis self)) th)"
    using assms by (rule circuit_unitary_wf)
  show ?thesis
    by (rule exI [of _ "map (qsp_product (phis self)) th"]) (simp add: cu call_def)
qed

theorem qsp_call_readout_witness:
  "call \<lparr>poly_deg = 1, convention = 1, phis = [0, 0]\<rparr> [0] = Inr (Some ([1], [0]))"
proof -
  have q: "qsp_product [0, 0] 0 = Mat2 1 0 0 1"
    by (simp add: qsp_product_def ordered_product_def R_z_closed W_closed matmul_def
        complex_eq_iff)
  show ?thesis
    using qsp_call_readout [of "\<lparr>poly_deg = 1, convention = 1, phis = [0, 0]\<rparr>" "[0]"]
    by (auto simp: q length_Suc_conv)
qed

text \<open>
  Claim C3. On a layer of degree \<open>d \<ge> 0\<close> with its \<open>d + 1\<close> phases, whatever the
  phases, the angles and the convention are, the forward call computes one matrix per
  example and each of them times its conjugate transpose is the identity.
\<close>

theorem circuit_unitary_is_unitary:
  assumes "0 \<le> poly_deg self" and "length (phis self) = nat (poly_deg self + 1)"
  shows "\<exists>us. circuit_unitary self th = Inr us \<and> length us = length th \<and>
     (\<forall>U\<in>set us. matmul U (dagger U) = eye2)"
proof -
  have cu: "circuit_unitary self th = Inr (map (qsp_product (phis self)) th)"
    using assms by (rule circuit_unitary_wf)
  have "matmul (qsp_product (phis self) t) (dagger (qsp_product (phis self) t)) = eye2" for t
    using unitary_qsp_product [of "phis self" t] by (simp add: unitary_def)
  then show ?thesis by (simp add: cu)
qed

theorem circuit_unitary_is_unitary_witness:
  "\<exists>U. circuit_unitary \<lparr>poly_deg = 1, convention = 0, phis = [0, 0]\<rparr> [0] = Inr [U] \<and>
     matmul U (dagger U) = eye2"
  using circuit_unitary_is_unitary [of "\<lparr>poly_deg = 1, convention = 0, phis = [0, 0]\<rparr>" "[0]"]
  by (auto simp: length_Suc_conv)


section \<open>The four losses\<close>

lemma sum_list_map2_nth:
  "length xs = length ys \<Longrightarrow>
     sum_list (map2 f xs ys) = (\<Sum>i<length xs. f (xs ! i) (ys ! i))"
proof -
  assume l: "length xs = length ys"
  have "sum_list (map2 f xs ys) = (\<Sum>i = 0..<length (map2 f xs ys). map2 f xs ys ! i)"
    by (rule sum_list_sum_nth)
  also have "\<dots> = (\<Sum>i<length xs. f (xs ! i) (ys ! i))"
    using l by (intro sum.cong) (auto simp: lessThan_atLeast0)
  finally show ?thesis .
qed

lemma set_map2_nth:
  "length xs = length ys \<Longrightarrow>
     set (map2 f xs ys) = (\<lambda>i. f (xs ! i) (ys ! i)) ` {..<length xs}"
proof -
  assume l: "length xs = length ys"
  have "set zs = (\<lambda>i. zs ! i) ` {..<length zs}" for zs :: "'c list"
    by (auto simp: in_set_conv_nth)
  from this [of "map2 f xs ys"]
  have "set (map2 f xs ys) = (\<lambda>i. map2 f xs ys ! i) ` {..<length (map2 f xs ys)}" .
  also have "\<dots> = (\<lambda>i. f (xs ! i) (ys ! i)) ` {..<length xs}"
    using l by (intro image_cong) auto
  finally show ?thesis .
qed

lemma reduce_max_Max: "xs \<noteq> [] \<Longrightarrow> reduce_max xs = Finite (Max (set xs))"
proof (cases xs)
  case Nil
  assume "xs \<noteq> []"
  with Nil show ?thesis by simp
next
  case (Cons x rest)
  have "fold max rest x = Max (set (x # rest))"
    by (rule Max.set_eq_fold [symmetric])
  then show ?thesis using Cons by (simp add: reduce_max_def)
qed

lemma deviations_eq:
  "tf_abs (map2 (-) ys ps) = map2 (\<lambda>t p. cmod (t - p)) ys ps"
  by (simp add: tf_abs_def map_zip_map2 o_def split_def)

lemma squared_deviations_eq:
  "tf_square (tf_abs (map2 (-) ys ps)) = map2 (\<lambda>t p. (cmod (t - p))\<^sup>2) ys ps"
  by (simp add: tf_abs_def tf_square_def o_def split_def power2_eq_square)

lemma deviation_losses_nonempty:
  assumes "length y_true = length y_pred" and "y_true \<noteq> []"
  shows "mean_deviation y_true y_pred =
           Inr (Finite ((\<Sum>i<length y_true. cmod (y_true ! i - y_pred ! i)) / real (length y_true))) \<and>
         max_deviation y_true y_pred =
           Inr (Finite (Max ((\<lambda>i. cmod (y_true ! i - y_pred ! i)) ` {..<length y_true}))) \<and>
         mean_deviation_squared y_true y_pred =
           Inr (Finite ((\<Sum>i<length y_true. (cmod (y_true ! i - y_pred ! i))\<^sup>2) / real (length y_true))) \<and>
         max_deviation_squared y_true y_pred =
           Inr (Finite (Max ((\<lambda>i. (cmod (y_true ! i - y_pred ! i))\<^sup>2) ` {..<length y_true})))"
proof -
  have sub: "tf_subtract y_true y_pred = Inr (map2 (-) y_true y_pred)"
    using assms by (simp add: tf_subtract_def)
  have ne: "map2 (\<lambda>t p. cmod (t - p)) y_true y_pred \<noteq> []"
       "map2 (\<lambda>t p. (cmod (t - p))\<^sup>2) y_true y_pred \<noteq> []"
    using assms by (cases y_true; cases y_pred; simp)+
  have len: "length (map2 (\<lambda>t p. cmod (t - p)) y_true y_pred) = length y_true"
       "length (map2 (\<lambda>t p. (cmod (t - p))\<^sup>2) y_true y_pred) = length y_true"
    using assms by simp_all
  have m1: "mean_deviation y_true y_pred =
      Inr (Finite ((\<Sum>i<length y_true. cmod (y_true ! i - y_pred ! i)) / real (length y_true)))"
    using ne(1) len(1) sum_list_map2_nth [OF assms(1), of "\<lambda>t p. cmod (t - p)"]
    by (simp add: mean_deviation_def sub deviations_eq reduce_mean_def)
  have m2: "max_deviation y_true y_pred =
      Inr (Finite (Max ((\<lambda>i. cmod (y_true ! i - y_pred ! i)) ` {..<length y_true})))"
    using reduce_max_Max [OF ne(1)] set_map2_nth [OF assms(1), of "\<lambda>t p. cmod (t - p)"]
    by (simp add: max_deviation_def sub deviations_eq)
  have m3: "mean_deviation_squared y_true y_pred =
      Inr (Finite ((\<Sum>i<length y_true. (cmod (y_true ! i - y_pred ! i))\<^sup>2) / real (length y_true)))"
    using ne(2) len(2) sum_list_map2_nth [OF assms(1), of "\<lambda>t p. (cmod (t - p))\<^sup>2"]
    by (simp add: mean_deviation_squared_def sub squared_deviations_eq reduce_mean_def)
  have m4: "max_deviation_squared y_true y_pred =
      Inr (Finite (Max ((\<lambda>i. (cmod (y_true ! i - y_pred ! i))\<^sup>2) ` {..<length y_true})))"
    using reduce_max_Max [OF ne(2)] set_map2_nth [OF assms(1), of "\<lambda>t p. (cmod (t - p))\<^sup>2"]
    by (simp add: max_deviation_squared_def sub squared_deviations_eq)
  show ?thesis using m1 m2 m3 m4 by blast
qed
lemma empty_batch_losses:
  "mean_deviation [] [] = Inr NaN \<and> max_deviation [] [] = Inr NegInf \<and>
   mean_deviation_squared [] [] = Inr NaN \<and> max_deviation_squared [] [] = Inr NegInf"
  by (simp add: mean_deviation_def max_deviation_def mean_deviation_squared_def
      max_deviation_squared_def tf_subtract_def tf_abs_def tf_square_def reduce_mean_def
      reduce_max_def)

text \<open>
  Claim C6. For two batches of equal length \<open>N > 0\<close>, with \<open>|.|\<close> the complex modulus:
  \<^verbatim>\<open>mean_deviation\<close> is the sum of \<open>|target_i - pred_i|\<close> over \<open>i < N\<close> divided by
  \<open>N\<close>, \<^verbatim>\<open>max_deviation\<close> is the greatest \<open>|target_i - pred_i|\<close>,
  \<^verbatim>\<open>mean_deviation_squared\<close> and \<^verbatim>\<open>max_deviation_squared\<close> are the same of
  \<open>|target_i - pred_i|^2\<close>; each is one real number. On the empty batch, where a mean and
  a maximum over \<open>i\<close> are not defined, the two means are NaN and the two maxima are
  the least float.
\<close>

theorem deviation_losses:
  assumes "length y_true = length y_pred"
  shows "(y_true \<noteq> [] \<longrightarrow>
           mean_deviation y_true y_pred =
             Inr (Finite ((\<Sum>i<length y_true. cmod (y_true ! i - y_pred ! i)) / real (length y_true))) \<and>
           max_deviation y_true y_pred =
             Inr (Finite (Max ((\<lambda>i. cmod (y_true ! i - y_pred ! i)) ` {..<length y_true}))) \<and>
           mean_deviation_squared y_true y_pred =
             Inr (Finite ((\<Sum>i<length y_true. (cmod (y_true ! i - y_pred ! i))\<^sup>2) / real (length y_true))) \<and>
           max_deviation_squared y_true y_pred =
             Inr (Finite (Max ((\<lambda>i. (cmod (y_true ! i - y_pred ! i))\<^sup>2) ` {..<length y_true})))) \<and>
         (y_true = [] \<longrightarrow>
           mean_deviation y_true y_pred = Inr NaN \<and>
           max_deviation y_true y_pred = Inr NegInf \<and>
           mean_deviation_squared y_true y_pred = Inr NaN \<and>
           max_deviation_squared y_true y_pred = Inr NegInf)"
proof (cases "y_true = []")
  case True
  then have "y_pred = []" using assms by simp
  then show ?thesis using True empty_batch_losses by simp
next
  case False
  then show ?thesis using deviation_losses_nonempty [OF assms False] by simp
qed

theorem deviation_losses_witness:
  "mean_deviation [1, \<i>] [0, 0] = Inr (Finite 1) \<and>
   max_deviation [1, \<i>] [0, 0] = Inr (Finite 1) \<and>
   mean_deviation_squared [1, \<i>] [0, 0] = Inr (Finite 1) \<and>
   max_deviation_squared [1, \<i>] [0, 0] = Inr (Finite 1)"
  using deviation_losses [of "[1, \<i>]" "[0, 0]"]
  by (simp add: lessThan_Suc numeral_2_eq_2)

lemma sum_list_zeros: "sum_list (map (\<lambda>x. 0::real) xs) = 0"
  by (induction xs) simp_all

text \<open>
  Claim C7. For every non-empty batch \<open>a\<close>, \<^verbatim>\<open>mean_deviation(a, a)\<close> and
  \<^verbatim>\<open>max_deviation(a, a)\<close> are 0.
\<close>

theorem self_deviation_zero:
  assumes "a \<noteq> []"
  shows "mean_deviation a a = Inr (Finite 0) \<and> max_deviation a a = Inr (Finite 0)"
proof -
  have sub: "tf_subtract a a = Inr (map2 (-) a a)" by (simp add: tf_subtract_def)
  have dev: "tf_abs (map2 (-) a a) = map (\<lambda>x. 0) a"
    by (simp add: tf_abs_def zip_same_conv_map o_def)
  have ne: "map (\<lambda>x. 0::real) a \<noteq> []" using assms by simp
  have mx: "Max (set (map (\<lambda>x. 0::real) a)) = 0"
  proof -
    have "set (map (\<lambda>x. 0::real) a) = {0}" using assms by (cases a) auto
    then show ?thesis by simp
  qed
  have m1: "mean_deviation a a = Inr (Finite 0)"
    using assms by (simp add: mean_deviation_def sub dev reduce_mean_def sum_list_zeros)
  have m2: "max_deviation a a = Inr (Finite 0)"
    using reduce_max_Max [OF ne] mx by (simp add: max_deviation_def sub dev)
  show ?thesis using m1 m2 by simp
qed

theorem self_deviation_zero_witness:
  "mean_deviation [1, \<i>] [1, \<i>] = Inr (Finite 0) \<and> max_deviation [1, \<i>] [1, \<i>] = Inr (Finite 0)"
  using self_deviation_zero [of "[1, \<i>]"] by simp


section \<open>Construction\<close>

text \<open>
  Claim C8, as stated, fails at \<open>poly_deg = -1\<close>: the shape of the phase tensor is then
  \<open>(0, 1)\<close>, which is a valid empty tensor, and the constructor returns a layer with
  no phase.
\<close>

theorem negative_poly_deg_minus_one_constructs:
  "QSP_init (- 1) 0 (\<lambda>k. 0) = Inr \<lparr>poly_deg = - 1, convention = 0, phis = []\<rparr>"
  by (simp add: QSP_init_def)

text \<open>
  Claim C8, amended. For every \<open>poly_deg < -1\<close> the construction fails, with the error
  of a tensor shape with a negative dimension. For \<open>poly_deg = -1\<close> the construction
  returns a layer with an empty phase vector, and every forward call of that layer fails
  with an index error, at \<^verbatim>\<open>z_rotations[0]\<close>.
\<close>

theorem negative_poly_deg_construction:
  assumes "poly_deg_arg < 0"
  shows "(poly_deg_arg < - 1 \<longrightarrow> QSP_init poly_deg_arg convention_arg phi_init = Inl InvalidArgument) \<and>
         (poly_deg_arg = - 1 \<longrightarrow>
            QSP_init poly_deg_arg convention_arg phi_init =
              Inr \<lparr>poly_deg = - 1, convention = convention_arg, phis = []\<rparr> \<and>
            circuit_unitary \<lparr>poly_deg = - 1, convention = convention_arg, phis = []\<rparr> th =
              Inl IndexError \<and>
            call \<lparr>poly_deg = - 1, convention = convention_arg, phis = []\<rparr> th = Inl IndexError)"
  using assms by (auto simp: QSP_init_def circuit_unitary_eq call_def)

theorem negative_poly_deg_construction_witness:
  "QSP_init (- 2) 0 (\<lambda>k. 0) = Inl InvalidArgument \<and>
   call \<lparr>poly_deg = - 1, convention = 0, phis = []\<rparr> [0] = Inl IndexError"
  using negative_poly_deg_construction [of "- 2" 0 "\<lambda>k. 0" "[0]"]
        negative_poly_deg_construction [of "- 1" 0 "\<lambda>k. 0" "[0]"]
  by simp

section \<open>The model builder on its arguments\<close>

lemma QSP_init_valid:
  "0 \<le> d \<Longrightarrow> QSP_init d c phi_init =
     Inr \<lparr>poly_deg = d, convention = c, phis = map phi_init [0..<nat (d + 1)]\<rparr>"
  by (simp add: QSP_init_def)

lemma call_valid:
  assumes "0 \<le> poly_deg self" and "length (phis self) = nat (poly_deg self + 1)"
    and "convention self = 0 \<or> convention self = 1"
  shows "call self th =
     Inr (Some (map (\<lambda>t. Re (m00 (qsp_product (phis self) t))) th,
                map (\<lambda>t. Im ((if convention self = 0 then m00 else m01)
                                (qsp_product (phis self) t))) th))"
  using assms(3) circuit_unitary_wf [OF assms(1,2), of th]
  by (auto simp: call_def o_def)

lemma graph_error_any_batch:
  "(real_and_imag_parts_added layer th = Inl e) = (real_and_imag_parts_added layer [] = Inl e)"
  by (simp add: real_and_imag_parts_added_def call_def circuit_unitary_eq)

text \<open>
  Claim C9. For \<open>poly_deg \<ge> 0\<close>, a convention of 0 or 1, any learning rate and flags
  \<open>mean_or_max\<close> and \<open>squared\<close> of 0 or 1, \<^verbatim>\<open>construct_qsp_model\<close> returns a model.
  Its layer is the one \<^verbatim>\<open>QSP(poly_deg, convention)\<close> constructs, its attribute
  \<^verbatim>\<open>convention\<close> is the argument, its loss is the one the two flags select, and on
  every batch its output at index \<open>i\<close> is \<open>re_i + i * im_i\<close> for the two streams
  \<open>re\<close> and \<open>im\<close> of the layer.
\<close>

theorem construct_qsp_model_valid:
  assumes "0 \<le> poly_deg_arg"
    and "convention_arg = 0 \<or> convention_arg = 1"
    and "mean_or_max = 0 \<or> mean_or_max = 1"
    and "squared = 0 \<or> squared = 1"
  shows "\<exists>m. construct_qsp_model poly_deg_arg convention_arg lr mean_or_max squared phi_init = Inr m \<and>
     QSP_init poly_deg_arg convention_arg phi_init = Inr (qsp m) \<and>
     model_convention m = convention_arg \<and>
     loss_apply (loss m) =
       (if mean_or_max = 0
        then (if squared = 0 then mean_deviation else mean_deviation_squared)
        else (if squared = 0 then max_deviation else max_deviation_squared)) \<and>
     (\<forall>th. \<exists>re im. call (qsp m) th = Inr (Some (re, im)) \<and>
        length re = length th \<and> length im = length th \<and>
        (\<exists>out. predict m th = Inr out \<and> length out = length th \<and>
           (\<forall>i<length th. out ! i = complex_of_real (re ! i) + \<i> * complex_of_real (im ! i))))"
proof -
  define layer where
    "layer = \<lparr>poly_deg = poly_deg_arg, convention = convention_arg,
              phis = map phi_init [0..<nat (poly_deg_arg + 1)]\<rparr>"
  have init: "QSP_init poly_deg_arg convention_arg phi_init = Inr layer"
    using assms(1) by (simp add: QSP_init_valid layer_def)
  have wf: "0 \<le> poly_deg layer" "length (phis layer) = nat (poly_deg layer + 1)"
    "convention layer = 0 \<or> convention layer = 1"
    using assms(1,2) by (simp_all add: layer_def)
  note cv = call_valid [OF wf]
  have graph: "\<exists>out. real_and_imag_parts_added layer [] = Inr out"
    by (simp add: real_and_imag_parts_added_def cv)
  obtain l where sel: "select_loss mean_or_max squared = Some l"
    and la: "loss_apply l =
       (if mean_or_max = 0
        then (if squared = 0 then mean_deviation else mean_deviation_squared)
        else (if squared = 0 then max_deviation else max_deviation_squared))"
    using assms(3,4) by (auto simp: select_loss_def)
  define m where
    "m = \<lparr>qsp = layer, learning_rate = lr, loss = l, model_convention = convention_arg\<rparr>"
  have con: "construct_qsp_model poly_deg_arg convention_arg lr mean_or_max squared phi_init = Inr m"
    using graph by (auto simp: construct_qsp_model_def init sel m_def)
  have fwd: "\<exists>re im. call (qsp m) th = Inr (Some (re, im)) \<and>
        length re = length th \<and> length im = length th \<and>
        (\<exists>out. predict m th = Inr out \<and> length out = length th \<and>
           (\<forall>i<length th. out ! i = complex_of_real (re ! i) + \<i> * complex_of_real (im ! i)))" for th
    by (simp add: m_def predict_def real_and_imag_parts_added_def cv)
  show ?thesis
    using con init la fwd by (intro exI [of _ m]) (simp add: m_def)
qed

theorem construct_qsp_model_valid_witness:
  "\<exists>m. construct_qsp_model 0 0 (1 / 100) 1 1 (\<lambda>k. 0) = Inr m \<and>
     model_convention m = 0 \<and> loss_apply (loss m) = max_deviation_squared"
  using construct_qsp_model_valid [of 0 0 1 1 "1 / 100" "\<lambda>k. 0"] by auto





end
